theory Spec2Isabelle
  imports Main "HOL-Library.Sublist"
begin

section \<open>Log entries\<close>

text \<open>
  \<^verbatim>\<open>src/model/log_entry.py\<close> is imported by \<^verbatim>\<open>src/application/api.py\<close>; the API
  reads three attributes of an entry: \<^verbatim>\<open>log.timestamp\<close>, \<^verbatim>\<open>log.tag\<close> and
  \<^verbatim>\<open>log.message\<close>. A timestamp is a point in time and the only ordering key. The
  type of timestamps is a parameter of the record: removing duplicates needs only the
  equality of timestamps, sorting needs their order. The record is extensible:
  whatever else an entry object carries sits in the extension, so two entries can
  agree on the three attributes and still be different objects.
\<close>

record 't LogEntry =
  timestamp :: 't
  tag :: string
  message :: string

type_synonym 't log_key = "'t \<times> string \<times> string"

text \<open>The tuple \<^verbatim>\<open>(log.timestamp, log.tag, log.message)\<close> of \<^verbatim>\<open>_merge_logs\<close>.\<close>

definition log_key :: "('t, 'a) LogEntry_scheme \<Rightarrow> 't log_key" where
  "log_key log = (timestamp log, tag log, message log)"

text \<open>
  The timestamps of Python are \<^verbatim>\<open>datetime\<close> objects (\<^verbatim>\<open>get_logs\<close> declares its two
  parameters so, and the example of \<^verbatim>\<open>add_logs\<close> gives an entry the timestamp
  \<^verbatim>\<open>2023-04-23T10:00:00\<close>). A \<^verbatim>\<open>datetime\<close> is naive (no time zone) or aware (with a
  time zone); either is a count of microseconds here, of the wall clock for a naive one
  and of universal time for an aware one. Two datetimes of one kind are equal, and
  ordered, as their counts are. A naive and an aware datetime are never equal, and an
  order comparison of the two raises \<^verbatim>\<open>TypeError\<close>.
\<close>

datatype datetime = Naive (instant: int) | Aware (instant: int)

fun is_aware :: "datetime \<Rightarrow> bool" where
  "is_aware (Naive n) = False"
| "is_aware (Aware n) = True"

text \<open>
  A call either returns or raises. The values of \<open>exn\<close> stand for the instances of
  Python's \<^verbatim>\<open>Exception\<close> class, each with its text: the error of the \<^verbatim>\<open>assert\<close>
  statement, the error of a comparison, and any other error that a collaborator raises.
\<close>

datatype exn = AssertionError string | TypeError string | Exception string

section \<open>The merge of cache and database results\<close>

text \<open>
  One \<^verbatim>\<open>for log in ...\<close> loop of \<^verbatim>\<open>_merge_logs\<close>. The loop state is the pair of
  the set \<^verbatim>\<open>unique_logs\<close> and the list \<^verbatim>\<open>combined_logs\<close>; both loops of the
  function have the same body.
\<close>

fun merge_loop ::
  "('t, 'a) LogEntry_scheme list \<Rightarrow> 't log_key set \<times> ('t, 'a) LogEntry_scheme list
    \<Rightarrow> 't log_key set \<times> ('t, 'a) LogEntry_scheme list" where
  "merge_loop [] (unique_logs, combined_logs) = (unique_logs, combined_logs)"
| "merge_loop (log # logs) (unique_logs, combined_logs) =
     (if log_key log \<notin> unique_logs
      then merge_loop logs (insert (log_key log) unique_logs, combined_logs @ [log])
      else merge_loop logs (unique_logs, combined_logs))"

text \<open>
  The list \<^verbatim>\<open>combined_logs\<close> after both loops, before it is sorted: the cache's logs
  are processed first, the database's logs second.
\<close>

definition combine_logs ::
  "('t, 'a) LogEntry_scheme list \<Rightarrow> ('t, 'a) LogEntry_scheme list
    \<Rightarrow> ('t, 'a) LogEntry_scheme list" where
  "combine_logs cache_logs db_logs =
     snd (merge_loop db_logs (merge_loop cache_logs ({}, [])))"

text \<open>
  \<^verbatim>\<open>combined_logs.sort(key=lambda log: log.timestamp)\<close>: Python's list sort is
  ascending and stable; \<^const>\<open>sort_key\<close> is the stable ascending sort of the library.
  This is the function for timestamps that are linearly ordered, as the datetimes of
  one kind are.
\<close>

definition merge_logs ::
  "('t::linorder, 'a) LogEntry_scheme list \<Rightarrow> ('t, 'a) LogEntry_scheme list
    \<Rightarrow> ('t, 'a) LogEntry_scheme list" where
  "merge_logs cache_logs db_logs = sort_key timestamp (combine_logs cache_logs db_logs)"

section \<open>The merge of lists of entries with \<^verbatim>\<open>datetime\<close> timestamps\<close>

text \<open>
  \<^verbatim>\<open>combined_logs.sort(key=lambda log: log.timestamp)\<close> on entries whose timestamps
  are datetimes. To sort, \<^verbatim>\<open>list.sort\<close> compares the keys with \<^verbatim>\<open><\<close>, and to put
  a list in order it has to compare every element with another one until all are
  connected; so when the list holds a naive and an aware timestamp, one comparison is
  between a naive and an aware datetime, and the \<^verbatim>\<open>TypeError\<close> of that comparison
  ends the sort and the function. When all timestamps are of one kind the sort is the
  stable ascending sort by the count of microseconds.
\<close>

definition sort_by_timestamp ::
  "(datetime, 'a) LogEntry_scheme list \<Rightarrow> exn + (datetime, 'a) LogEntry_scheme list" where
  "sort_by_timestamp combined_logs =
     (if list_ex (\<lambda>log. is_aware (timestamp log)) combined_logs
         \<and> list_ex (\<lambda>log. \<not> is_aware (timestamp log)) combined_logs
      then Inl (TypeError ''can't compare offset-naive and offset-aware datetimes'')
      else Inr (sort_key (\<lambda>log. instant (timestamp log)) combined_logs))"

text \<open>
  \<^verbatim>\<open>_merge_logs\<close> as a function of the contents of its two arguments: the two loops,
  then the sort. The keys of the loops are compared by equality, which is defined
  between any two datetimes.
\<close>

definition merge_logs_datetime ::
  "(datetime, 'a) LogEntry_scheme list \<Rightarrow> (datetime, 'a) LogEntry_scheme list
    \<Rightarrow> exn + (datetime, 'a) LogEntry_scheme list" where
  "merge_logs_datetime cache_logs db_logs = sort_by_timestamp (combine_logs cache_logs db_logs)"

text \<open>All timestamps of a list are of one kind.\<close>

definition one_kind :: "(datetime, 'a) LogEntry_scheme list \<Rightarrow> bool" where
  "one_kind logs =
     (list_all (\<lambda>log. is_aware (timestamp log)) logs
      \<or> list_all (\<lambda>log. \<not> is_aware (timestamp log)) logs)"

section \<open>The same function on list objects\<close>

text \<open>
  Python lists are mutable objects that are passed by reference. To speak about what
  \<^verbatim>\<open>_merge_logs\<close> does to the lists it is given, the list objects live in a store,
  addressed by their index; a parameter of the function is an address. A
  \<^verbatim>\<open>for log in xs\<close> loop reads \<^verbatim>\<open>xs\<close> through its address at every iteration, by an
  index that counts up until it reaches the current length of the list, which is how
  Python's list iterator works; \<^verbatim>\<open>combined_logs.append(log)\<close> updates the object at
  the address of \<^verbatim>\<open>combined_logs\<close>. A loop that does not stop has the value \<open>None\<close>.
\<close>

type_synonym ('t, 'a) heap = "('t, 'a) LogEntry_scheme list list"

partial_function (option) for_loop ::
  "nat \<Rightarrow> nat \<Rightarrow> nat \<Rightarrow> 't log_key set \<Rightarrow> ('t, 'a) heap
    \<Rightarrow> ('t log_key set \<times> ('t, 'a) heap) option" where
  "for_loop logs combined_logs i unique_logs h =
     (if i < length (h ! logs)
      then (let log = h ! logs ! i in
            if log_key log \<notin> unique_logs
            then for_loop logs combined_logs (Suc i) (insert (log_key log) unique_logs)
                   (h[combined_logs := h ! combined_logs @ [log]])
            else for_loop logs combined_logs (Suc i) unique_logs h)
      else Some (unique_logs, h))"

text \<open>
  \<^verbatim>\<open>combined_logs = []\<close> allocates a new list object, at the first unused address;
  \<^verbatim>\<open>combined_logs.sort(...)\<close> sorts that object in place, and its address is what the
  function returns. When the sort raises, the exception leaves the function; the new
  list, in whatever order the sort left it, is then out of reach, and the store is
  given without it. The set \<^verbatim>\<open>unique_logs\<close> is local to the call. An address that
  denotes no object cannot occur in Python; the model answers \<open>None\<close> there.
\<close>

definition merge_logs_heap ::
  "nat \<Rightarrow> nat \<Rightarrow> (datetime, 'a) heap \<Rightarrow> ((exn + nat) \<times> (datetime, 'a) heap) option" where
  "merge_logs_heap cache_logs db_logs h =
     (if cache_logs < length h \<and> db_logs < length h
      then (let combined_logs = length h; h0 = h @ [[]] in
            case for_loop cache_logs combined_logs 0 {} h0 of
              None \<Rightarrow> None
            | Some (unique_logs, h1) \<Rightarrow>
                (case for_loop db_logs combined_logs 0 unique_logs h1 of
                   None \<Rightarrow> None
                 | Some (unique_logs', h2) \<Rightarrow>
                     (case sort_by_timestamp (h2 ! combined_logs) of
                        Inl e \<Rightarrow> Some (Inl e, butlast h2)
                      | Inr sorted_logs \<Rightarrow>
                          Some (Inr combined_logs, h2[combined_logs := sorted_logs]))))
      else None)"

section \<open>Exceptions, collaborators and what the service does\<close>

text \<open>
  The two collaborators of the class \<^verbatim>\<open>API\<close>, \<^verbatim>\<open>TemporalCache\<close> and \<^verbatim>\<open>SQliteConn\<close>,
  are constructor arguments; their modules are imported, not defined, by
  \<^verbatim>\<open>api.py\<close>. Each is a parameter here: a record of the methods that the API calls,
  every method a function from the collaborator's state to an outcome (returned value
  or raised exception) and the collaborator's state afterwards.
\<close>

record ('e, 'c) TemporalCache =
  add_log :: "'e \<Rightarrow> 'c \<Rightarrow> (exn + unit) \<times> 'c"
  prune_cache :: "'c \<Rightarrow> (exn + 'e list) \<times> 'c"
  cache_get_logs :: "int \<Rightarrow> int \<Rightarrow> 'c \<Rightarrow> (exn + 'e list) \<times> 'c"

record ('e, 'd) SQliteConn =
  save_logs :: "'e list \<Rightarrow> 'd \<Rightarrow> (exn + unit) \<times> 'd"
  db_get_logs :: "int \<Rightarrow> int \<Rightarrow> 'd \<Rightarrow> (exn + 'e list) \<times> 'd"

text \<open>
  The body of a \<^verbatim>\<open>JSONResponse\<close>: the dictionary with the keys \<^verbatim>\<open>message\<close> and
  \<^verbatim>\<open>count\<close> that \<^verbatim>\<open>add_logs\<close> builds, or the dictionary with the key \<^verbatim>\<open>logs\<close> that
  \<^verbatim>\<open>get_logs\<close> builds (the entries stand for their JSON encodings).
\<close>

datatype 'e content = Message_count string nat | Logs "'e list"

datatype 'e JSONResponse = JSONResponse (content: "'e content") (status_code: nat)

text \<open>
  The only function that \<^verbatim>\<open>add_logs\<close> hands to \<^verbatim>\<open>BackgroundTasks.add_task\<close> is
  \<^verbatim>\<open>__save_pruned_logs\<close>, so a task is that function with its argument. The argument
  is what \<^verbatim>\<open>__prune_logs\<close> returned: a list, or Python's \<^verbatim>\<open>None\<close>.
\<close>

datatype 'e task = Save_pruned_logs "'e list option"

text \<open>Everything observable that the service does, in the order in which it happens.\<close>

datatype 'e event =
    Print_entry 'e
  | Cache_add_log 'e
  | Cache_prune_cache
  | Print_pruned "'e list"
  | Print_error exn
  | Add_task "'e task"
  | Cache_get_logs int int
  | Db_get_logs int int
  | Db_save_logs "'e list"
  | Response_sent "'e JSONResponse"

record ('e, 'c, 'd) world =
  cache_state :: 'c
  db_state :: 'd
  background :: "'e task list"
  trace :: "'e event list"

definition emit :: "'e event \<Rightarrow> ('e, 'c, 'd) world \<Rightarrow> ('e, 'c, 'd) world" where
  "emit ev w = w\<lparr>trace := trace w @ [ev]\<rparr>"

text \<open>The argument of \<^verbatim>\<open>add_logs\<close> as a Python object: the \<^verbatim>\<open>isinstance\<close> test looks at its class.\<close>

datatype 'e pyobj = LogEntry_obj 'e | LogList_obj "'e list" | Other_obj

subsection \<open>\<^verbatim>\<open>__prune_logs\<close> and \<^verbatim>\<open>__save_pruned_logs\<close>\<close>

text \<open>
  \<^verbatim>\<open>try: pruned_logs = self.__cache.prune_cache(); print(...); return pruned_logs\<close>
  \<^verbatim>\<open>except Exception as e: print(f"Error during pruning: {e}")\<close>: the handler has no
  \<^verbatim>\<open>return\<close>, so the function returns \<^verbatim>\<open>None\<close> after an exception. Every value of
  \<open>exn\<close> is an \<^verbatim>\<open>Exception\<close>, so the function itself never raises.
\<close>

definition prune_logs ::
  "('e, 'c) TemporalCache \<Rightarrow> ('e, 'c, 'd) world \<Rightarrow> 'e list option \<times> ('e, 'c, 'd) world" where
  "prune_logs cache w =
     (let w1 = emit Cache_prune_cache w in
      case prune_cache cache (cache_state w1) of
        (Inr pruned_logs, c) \<Rightarrow>
          (Some pruned_logs, emit (Print_pruned pruned_logs) (w1\<lparr>cache_state := c\<rparr>))
      | (Inl e, c) \<Rightarrow>
          (None, emit (Print_error e) (w1\<lparr>cache_state := c\<rparr>)))"

text \<open>\<^verbatim>\<open>if not pruned_logs: return self\<close>: both \<^verbatim>\<open>None\<close> and the empty list are false.\<close>

definition save_pruned_logs ::
  "('e, 'd) SQliteConn \<Rightarrow> 'e list option \<Rightarrow> ('e, 'c, 'd) world \<Rightarrow> (exn + unit) \<times> ('e, 'c, 'd) world" where
  "save_pruned_logs db_service pruned_logs w =
     (case pruned_logs of
        None \<Rightarrow> (Inr (), w)
      | Some [] \<Rightarrow> (Inr (), w)
      | Some (l # ls) \<Rightarrow>
          (let w1 = emit (Db_save_logs (l # ls)) w in
           case save_logs db_service (l # ls) (db_state w1) of
             (Inl e, d) \<Rightarrow> (Inl e, w1\<lparr>db_state := d\<rparr>)
           | (Inr u, d) \<Rightarrow> (Inr (), w1\<lparr>db_state := d\<rparr>)))"

subsection \<open>\<^verbatim>\<open>add_logs\<close>\<close>

text \<open>The decimal numeral of \<^verbatim>\<open>logs_count\<close> inside the f-string.\<close>

fun str_nat :: "nat \<Rightarrow> string" where
  "str_nat n =
     (if n < 10 then [''0123456789'' ! n]
      else str_nat (n div 10) @ [''0123456789'' ! (n mod 10)])"

declare str_nat.simps [simp del]

text \<open>
  \<^verbatim>\<open>for log_entry in logs: print(log_entry); self.__cache.add_log(log_entry)\<close>.
  An exception of \<^verbatim>\<open>add_log\<close> is not caught: it ends the loop and the request.
\<close>

fun add_each ::
  "('e, 'c) TemporalCache \<Rightarrow> 'e list \<Rightarrow> ('e, 'c, 'd) world \<Rightarrow> (exn + unit) \<times> ('e, 'c, 'd) world" where
  "add_each cache [] w = (Inr (), w)"
| "add_each cache (log_entry # logs) w =
     (let w1 = emit (Cache_add_log log_entry) (emit (Print_entry log_entry) w) in
      case add_log cache log_entry (cache_state w1) of
        (Inl e, c) \<Rightarrow> (Inl e, w1\<lparr>cache_state := c\<rparr>)
      | (Inr u, c) \<Rightarrow> add_each cache logs (w1\<lparr>cache_state := c\<rparr>))"

text \<open>
  The first statements of \<^verbatim>\<open>add_logs\<close>: the assertion
  \<^verbatim>\<open>assert isinstance(log_list, (LogEntry, LogList)), "Invalid input type"\<close> and the
  \<^verbatim>\<open>if isinstance(log_list, LogList): ... else: ...\<close> statement, whose value is
  \<^verbatim>\<open>logs_count\<close>. The \<^verbatim>\<open>else\<close> branch prints nothing.
\<close>

definition add_submission ::
  "('e, 'c) TemporalCache \<Rightarrow> 'e pyobj \<Rightarrow> ('e, 'c, 'd) world \<Rightarrow> (exn + nat) \<times> ('e, 'c, 'd) world" where
  "add_submission cache log_list w =
     (case log_list of
        Other_obj \<Rightarrow> (Inl (AssertionError ''Invalid input type''), w)
      | LogList_obj logs \<Rightarrow>
          (case add_each cache logs w of
             (Inl e, w1) \<Rightarrow> (Inl e, w1)
           | (Inr u, w1) \<Rightarrow> (Inr (length logs), w1))
      | LogEntry_obj log_entry \<Rightarrow>
          (let w1 = emit (Cache_add_log log_entry) w in
           case add_log cache log_entry (cache_state w1) of
             (Inl e, c) \<Rightarrow> (Inl e, w1\<lparr>cache_state := c\<rparr>)
           | (Inr u, c) \<Rightarrow> (Inr 1, w1\<lparr>cache_state := c\<rparr>)))"

text \<open>
  \<^verbatim>\<open>background_task.add_task(self.__save_pruned_logs, self.__prune_logs())\<close>: Python
  evaluates the arguments of a call before the call, so \<^verbatim>\<open>__prune_logs\<close> runs here,
  and its result is stored with the task. Then the response is built and returned.
\<close>

definition add_logs ::
  "('e, 'c) TemporalCache \<Rightarrow> 'e pyobj \<Rightarrow> ('e, 'c, 'd) world
    \<Rightarrow> (exn + 'e JSONResponse) \<times> ('e, 'c, 'd) world" where
  "add_logs cache log_list w =
     (case add_submission cache log_list w of
        (Inl e, w1) \<Rightarrow> (Inl e, w1)
      | (Inr logs_count, w1) \<Rightarrow>
          (case prune_logs cache w1 of
             (pruned_logs, w2) \<Rightarrow>
               (let w3 = emit (Add_task (Save_pruned_logs pruned_logs))
                           (w2\<lparr>background := background w2 @ [Save_pruned_logs pruned_logs]\<rparr>)
                in (Inr (JSONResponse
                          (Message_count
                             (''Successfully added '' @ str_nat logs_count @ '' logs'')
                             logs_count)
                          201),
                    w3))))"

subsection \<open>\<^verbatim>\<open>get_logs\<close>\<close>


subsection \<open>The request around \<^verbatim>\<open>add_logs\<close>\<close>

text \<open>
  FastAPI hands the \<^verbatim>\<open>BackgroundTasks\<close> object of a request to the endpoint, sends
  the response that the endpoint returns, and then runs the tasks that were added, in
  the order in which they were added. An exception of a task ends the run.
\<close>

fun run_tasks ::
  "('e, 'd) SQliteConn \<Rightarrow> 'e task list \<Rightarrow> ('e, 'c, 'd) world \<Rightarrow> (exn + unit) \<times> ('e, 'c, 'd) world" where
  "run_tasks db_service [] w = (Inr (), w)"
| "run_tasks db_service (Save_pruned_logs pruned_logs # ts) w =
     (case save_pruned_logs db_service pruned_logs w of
        (Inl e, w1) \<Rightarrow> (Inl e, w1)
      | (Inr u, w1) \<Rightarrow> run_tasks db_service ts w1)"

definition post_logs ::
  "('e, 'c) TemporalCache \<Rightarrow> ('e, 'd) SQliteConn \<Rightarrow> 'e pyobj \<Rightarrow> ('e, 'c, 'd) world
    \<Rightarrow> (exn + 'e JSONResponse) \<times> ('e, 'c, 'd) world" where
  "post_logs cache db_service log_list w =
     (case add_logs cache log_list (w\<lparr>background := []\<rparr>) of
        (Inl e, w1) \<Rightarrow> (Inl e, w1)
      | (Inr response, w1) \<Rightarrow>
          (let w2 = emit (Response_sent response) w1 in
           (Inr response, snd (run_tasks db_service (background w2) (w2\<lparr>background := []\<rparr>)))))"

subsection \<open>Adding to the cache in order\<close>

text \<open>
  The cache when \<^verbatim>\<open>add_log\<close> is called with the entries of a list one at a time, in
  the order of the list, every call in the state that the call before it left, up to
  the first call that raises: the outcome, the state of the cache, and the entries that
  \<^verbatim>\<open>add_log\<close> was called with. This is written on the collaborator alone, to compare
  \<^verbatim>\<open>add_logs\<close> with it.
\<close>

fun add_in_order ::
  "('e, 'c) TemporalCache \<Rightarrow> 'e list \<Rightarrow> 'c \<Rightarrow> (exn + unit) \<times> 'c \<times> 'e list" where
  "add_in_order cache [] c = (Inr (), c, [])"
| "add_in_order cache (l # ls) c =
     (case add_log cache l c of
        (Inl e, c1) \<Rightarrow> (Inl e, c1, [l])
      | (Inr u, c1) \<Rightarrow>
          (case add_in_order cache ls c1 of (r, c2, called) \<Rightarrow> (r, c2, l # called)))"

text \<open>The collaborator's \<^verbatim>\<open>add_log\<close> returns for every entry, in every state.\<close>

definition add_log_returns :: "('e, 'c) TemporalCache \<Rightarrow> bool" where
  "add_log_returns cache = (\<forall>e c. \<exists>c'. add_log cache e c = (Inr (), c'))"

subsection \<open>Collaborators to run the service with\<close>

text \<open>
  Modelled from the spec: the module \<^verbatim>\<open>src/services/temporal_cache.py\<close> is missing.
  The cache holds a list of entries; \<open>add\<close> inserts unconditionally; \<open>getRange\<close>
  returns every held entry with \<open>start \<le> timestamp \<le> end\<close>, in ascending timestamp
  order; \<open>prune\<close> removes and returns the entries with
  \<open>now - timestamp > retentionWindow\<close>.
\<close>

definition spec_cache ::
  "int \<Rightarrow> int \<Rightarrow> ((int, 'a) LogEntry_scheme, (int, 'a) LogEntry_scheme list) TemporalCache" where
  "spec_cache now retentionWindow =
     \<lparr>add_log = (\<lambda>entry c. (Inr (), c @ [entry])),
      prune_cache = (\<lambda>c. (Inr (filter (\<lambda>e. now - timestamp e > retentionWindow) c),
                          filter (\<lambda>e. \<not> now - timestamp e > retentionWindow) c)),
      cache_get_logs = (\<lambda>start end c.
        (Inr (sort_key timestamp (filter (\<lambda>e. start \<le> timestamp e \<and> timestamp e \<le> end) c)), c))\<rparr>"

text \<open>
  Modelled from the spec: the module \<^verbatim>\<open>src/services/sqlite_conn.py\<close> is missing.
  The archive's \<open>save\<close> persists the entries, and its \<open>query\<close> returns the persisted
  entries of the inclusive range.
\<close>

definition spec_archive ::
  "((int, 'a) LogEntry_scheme, (int, 'a) LogEntry_scheme list) SQliteConn" where
  "spec_archive =
     \<lparr>save_logs = (\<lambda>entries d. (Inr (), d @ entries)),
      db_get_logs = (\<lambda>start end d.
        (Inr (filter (\<lambda>e. start \<le> timestamp e \<and> timestamp e \<le> end) d), d))\<rparr>"

text \<open>A cache whose \<^verbatim>\<open>prune_cache\<close> raises, and is like \<^const>\<open>spec_cache\<close> otherwise.\<close>

definition failing_prune_cache ::
  "string \<Rightarrow> ((int, 'a) LogEntry_scheme, (int, 'a) LogEntry_scheme list) TemporalCache" where
  "failing_prune_cache msg = (spec_cache 0 0)\<lparr>prune_cache := (\<lambda>c. (Inl (Exception msg), c))\<rparr>"

definition world0 :: "((int, 'a) LogEntry_scheme, (int, 'a) LogEntry_scheme list, (int, 'a) LogEntry_scheme list) world" where
  "world0 = \<lparr>cache_state = [], db_state = [], background = [], trace = []\<rparr>"

section \<open>Properties of the merge loop\<close>

lemma merge_loop_keys:
  "fst (merge_loop logs (u, acc)) = u \<union> log_key ` set logs"
  by (induction logs arbitrary: u acc) auto

lemma merge_loop_extends:
  "\<exists>ys. snd (merge_loop logs (u, acc)) = acc @ ys \<and> subseq ys logs
     \<and> log_key ` set ys = log_key ` set logs - u
     \<and> distinct (map log_key ys)"
proof (induction logs arbitrary: u acc)
  case Nil
  show ?case by simp
next
  case (Cons log logs)
  show ?case
  proof (cases "log_key log \<in> u")
    case True
    from Cons.IH [of u acc] obtain ys where
      ys: "snd (merge_loop logs (u, acc)) = acc @ ys" "subseq ys logs"
          "log_key ` set ys = log_key ` set logs - u" "distinct (map log_key ys)"
      by blast
    from True ys have "log_key ` set ys = log_key ` set (log # logs) - u"
      by auto
    moreover have "subseq ys (log # logs)"
      using ys(2) subseq_drop_many [of ys logs "[log]"] by simp
    ultimately show ?thesis
      using True ys by (intro exI [of _ ys]) simp
  next
    case False
    from Cons.IH [of "insert (log_key log) u" "acc @ [log]"] obtain ys where
      ys: "snd (merge_loop logs (insert (log_key log) u, acc @ [log])) = (acc @ [log]) @ ys"
          "subseq ys logs"
          "log_key ` set ys = log_key ` set logs - insert (log_key log) u"
          "distinct (map log_key ys)"
      by blast
    have k: "log_key log \<notin> log_key ` set ys"
      using ys(3) by auto
    have "log_key ` set (log # ys) = log_key ` set (log # logs) - u"
      using ys(3) False by auto
    with False ys k show ?thesis
      by (intro exI [of _ "log # ys"]) simp
  qed
qed

lemma subseq_set_mono: "subseq xs ys \<Longrightarrow> set xs \<subseteq> set ys"
  by (induction rule: list_emb.induct) auto

text \<open>
  The combined list is what the first loop kept of the cache's logs, followed by what
  the second loop kept of the database's logs.
\<close>

lemma combine_logs_split:
  obtains xs ys where
    "combine_logs cache_logs db_logs = xs @ ys"
    "subseq xs cache_logs" "subseq ys db_logs"
    "log_key ` set xs = log_key ` set cache_logs"
    "log_key ` set ys = log_key ` set db_logs - log_key ` set cache_logs"
    "distinct (map log_key xs)" "distinct (map log_key ys)"
proof -
  obtain xs where xs: "snd (merge_loop cache_logs ({}, [])) = [] @ xs" "subseq xs cache_logs"
      "log_key ` set xs = log_key ` set cache_logs - {}" "distinct (map log_key xs)"
    using merge_loop_extends [of cache_logs "{}" "[]"] by blast
  let ?u = "fst (merge_loop cache_logs ({}, []))"
  have u: "?u = log_key ` set cache_logs"
    by (simp add: merge_loop_keys)
  obtain ys where ys: "snd (merge_loop db_logs (?u, xs)) = xs @ ys" "subseq ys db_logs"
      "log_key ` set ys = log_key ` set db_logs - ?u" "distinct (map log_key ys)"
    using merge_loop_extends [of db_logs ?u xs] by blast
  have "merge_loop cache_logs ({}, []) = (?u, xs)"
    using xs(1) by (simp add: prod_eq_iff)
  then have "combine_logs cache_logs db_logs = xs @ ys"
    using ys(1) by (simp add: combine_logs_def)
  then show ?thesis
    using that [of xs ys] xs ys u by simp
qed

lemma combine_logs_subseq:
  "subseq (combine_logs cache_logs db_logs) (cache_logs @ db_logs)"
  by (rule combine_logs_split [of cache_logs db_logs]) (simp add: list_emb_append_mono)

lemma combine_logs_distinct:
  "distinct (map log_key (combine_logs cache_logs db_logs))"
  by (rule combine_logs_split [of cache_logs db_logs]) auto

lemma combine_logs_keys:
  "log_key ` set (combine_logs cache_logs db_logs)
     = log_key ` set cache_logs \<union> log_key ` set db_logs"
  by (rule combine_logs_split [of cache_logs db_logs]) (auto simp: image_Un)

text \<open>
  An entry of the combined list whose key occurs in the cache's list is an element of
  the cache's list: the database's copy of a key that the cache has is the one skipped.
\<close>

lemma combine_logs_primary:
  assumes "e \<in> set (combine_logs cache_logs db_logs)"
    and "log_key e \<in> log_key ` set cache_logs"
  shows "e \<in> set cache_logs"
proof (rule combine_logs_split [of cache_logs db_logs])
  fix xs ys
  assume eq: "combine_logs cache_logs db_logs = xs @ ys"
    and xs: "subseq xs cache_logs"
    and ys: "log_key ` set ys = log_key ` set db_logs - log_key ` set cache_logs"
  have "e \<notin> set ys"
    using assms(2) ys by auto
  with assms(1) eq have "e \<in> set xs"
    by simp
  with xs show ?thesis
    by (auto dest: list_emb_set)
qed

section \<open>The loop on list objects computes the loop on lists\<close>

text \<open>
  When the list that is read and the list that is appended to are different objects,
  the loop stops, and it leaves in the store what \<^const>\<open>merge_loop\<close> computes from
  the contents of the two objects; no other object changes.
\<close>

lemma for_loop_merge_loop:
  assumes "logs < length h" "combined_logs < length h" "logs \<noteq> combined_logs"
    and "i \<le> length (h ! logs)"
  shows "for_loop logs combined_logs i u h =
     Some (fst (merge_loop (drop i (h ! logs)) (u, h ! combined_logs)),
           h[combined_logs := snd (merge_loop (drop i (h ! logs)) (u, h ! combined_logs))])"
  using assms
proof (induction "length (h ! logs) - i" arbitrary: i u h)
  case 0
  then have "i = length (h ! logs)"
    by simp
  then show ?case
    by (subst for_loop.simps) simp
next
  case (Suc k)
  then have lt: "i < length (h ! logs)"
    by simp
  let ?log = "h ! logs ! i"
  have dr: "drop i (h ! logs) = ?log # drop (Suc i) (h ! logs)"
    using lt by (simp add: Cons_nth_drop_Suc)
  show ?case
  proof (cases "log_key ?log \<in> u")
    case True
    have "for_loop logs combined_logs i u h = for_loop logs combined_logs (Suc i) u h"
      using lt True by (subst for_loop.simps) (simp add: Let_def)
    also have "\<dots> = Some (fst (merge_loop (drop (Suc i) (h ! logs)) (u, h ! combined_logs)),
           h[combined_logs := snd (merge_loop (drop (Suc i) (h ! logs)) (u, h ! combined_logs))])"
      using Suc.hyps(2) Suc.prems lt by (intro Suc.hyps(1)) simp_all
    finally show ?thesis
      using True by (simp add: dr)
  next
    case False
    let ?h = "h[combined_logs := h ! combined_logs @ [?log]]"
    let ?u = "insert (log_key ?log) u"
    have h: "?h ! logs = h ! logs" "length ?h = length h"
        "?h ! combined_logs = h ! combined_logs @ [?log]"
      using Suc.prems by simp_all
    have "for_loop logs combined_logs i u h = for_loop logs combined_logs (Suc i) ?u ?h"
      using lt False by (subst for_loop.simps) (simp add: Let_def)
    also have "\<dots> = Some (fst (merge_loop (drop (Suc i) (?h ! logs)) (?u, ?h ! combined_logs)),
           ?h[combined_logs := snd (merge_loop (drop (Suc i) (?h ! logs)) (?u, ?h ! combined_logs))])"
      using Suc.hyps(2) Suc.prems lt h by (intro Suc.hyps(1)) simp_all
    finally show ?thesis
      using False by (simp add: dr h)
  qed
qed

text \<open>The sort raises exactly when the two lists together hold both kinds of timestamps.\<close>

lemma list_ex_combine_logs:
  fixes cache_logs :: "('t, 'a) LogEntry_scheme list"
  shows "list_ex (\<lambda>log. P (timestamp log)) (combine_logs cache_logs db_logs)
     = list_ex (\<lambda>log. P (timestamp log)) (cache_logs @ db_logs)"
proof -
  have "list_ex (\<lambda>log. P (timestamp log)) xs = (\<exists>k \<in> log_key ` set xs. P (fst k))"
    for xs :: "('t, 'a) LogEntry_scheme list"
    by (auto simp: list_ex_iff log_key_def)
  then show ?thesis
    by (simp only: combine_logs_keys set_append image_Un)
qed

lemma merge_logs_datetime_eq:
  "merge_logs_datetime cache_logs db_logs =
     (if one_kind (cache_logs @ db_logs)
      then Inr (sort_key (\<lambda>log. instant (timestamp log)) (combine_logs cache_logs db_logs))
      else Inl (TypeError ''can't compare offset-naive and offset-aware datetimes''))"
proof -
  have a: "list_ex (\<lambda>log. is_aware (timestamp log)) (combine_logs cache_logs db_logs)
      = list_ex (\<lambda>log. is_aware (timestamp log)) (cache_logs @ db_logs)"
    by (rule list_ex_combine_logs)
  have n: "list_ex (\<lambda>log. \<not> is_aware (timestamp log)) (combine_logs cache_logs db_logs)
      = list_ex (\<lambda>log. \<not> is_aware (timestamp log)) (cache_logs @ db_logs)"
    by (rule list_ex_combine_logs [of "\<lambda>t. \<not> is_aware t"])
  have k: "one_kind (cache_logs @ db_logs) =
      (\<not> (list_ex (\<lambda>log. is_aware (timestamp log)) (cache_logs @ db_logs)
          \<and> list_ex (\<lambda>log. \<not> is_aware (timestamp log)) (cache_logs @ db_logs)))"
    unfolding one_kind_def list_ex_iff list_all_iff by blast
  show ?thesis
  proof (cases "one_kind (cache_logs @ db_logs)")
    case True
    with k show ?thesis
      unfolding merge_logs_datetime_def sort_by_timestamp_def a n by simp
  next
    case False
    with k show ?thesis
      unfolding merge_logs_datetime_def sort_by_timestamp_def a n by simp
  qed
qed

text \<open>
  When the function for datetimes returns, its result has the properties of
  \<^const>\<open>merge_logs\<close>: no two entries with one key, ascending timestamps with the
  entries of one timestamp in the order of the combined list, and the keys and entries
  of the two arguments.
\<close>

lemma merge_logs_datetime_output:
  assumes "merge_logs_datetime cache_logs db_logs = Inr overall_logs"
  shows "distinct (map log_key overall_logs)"
    and "sorted (map (\<lambda>log. instant (timestamp log)) overall_logs)"
    and "filter (\<lambda>log. instant (timestamp log) = t) overall_logs
           = filter (\<lambda>log. instant (timestamp log) = t) (combine_logs cache_logs db_logs)"
    and "log_key ` set overall_logs = log_key ` set cache_logs \<union> log_key ` set db_logs"
    and "set overall_logs \<subseteq> set cache_logs \<union> set db_logs"
proof -
  have o: "overall_logs
      = sort_key (\<lambda>log. instant (timestamp log)) (combine_logs cache_logs db_logs)"
    using assms by (simp add: merge_logs_datetime_eq split: if_splits)
  have "distinct (map log_key (combine_logs cache_logs db_logs))"
    by (rule combine_logs_distinct)
  then show "distinct (map log_key overall_logs)"
    by (simp add: o distinct_map)
  show "sorted (map (\<lambda>log. instant (timestamp log)) overall_logs)"
    by (simp add: o)
  show "filter (\<lambda>log. instant (timestamp log) = t) overall_logs
           = filter (\<lambda>log. instant (timestamp log) = t) (combine_logs cache_logs db_logs)"
    unfolding o by (rule sort_key_stable)
  show "log_key ` set overall_logs = log_key ` set cache_logs \<union> log_key ` set db_logs"
    by (simp add: o combine_logs_keys)
  have "set (combine_logs cache_logs db_logs) \<subseteq> set (cache_logs @ db_logs)"
    by (rule subseq_set_mono) (rule combine_logs_subseq)
  then show "set overall_logs \<subseteq> set cache_logs \<union> set db_logs"
    by (simp add: o)
qed

lemma merge_logs_heap_eq:
  fixes h :: "(datetime, 'a) heap"
  assumes "cache_logs < length h" and "db_logs < length h"
  shows "merge_logs_heap cache_logs db_logs h
           = Some (case merge_logs_datetime (h ! cache_logs) (h ! db_logs) of
                     Inl e \<Rightarrow> (Inl e, h)
                   | Inr sorted_logs \<Rightarrow> (Inr (length h), h @ [sorted_logs]))"
proof -
  obtain u1 xs1 where m1: "merge_loop (h ! cache_logs) ({}, []) = (u1, xs1)"
    by (cases "merge_loop (h ! cache_logs) ({}, [])")
  obtain u2 xs2 where m2: "merge_loop (h ! db_logs) (u1, xs1) = (u2, xs2)"
    by (cases "merge_loop (h ! db_logs) (u1, xs1)")
  have l1: "for_loop cache_logs (length h) 0 {} (h @ [[]]) = Some (u1, h @ [xs1])"
    using assms m1
    by (subst for_loop_merge_loop) (simp_all add: nth_append)
  have l2: "for_loop db_logs (length h) 0 u1 (h @ [xs1]) = Some (u2, h @ [xs2])"
    using assms m2
    by (subst for_loop_merge_loop) (simp_all add: nth_append)
  have "merge_logs_datetime (h ! cache_logs) (h ! db_logs) = sort_by_timestamp xs2"
    by (simp add: merge_logs_datetime_def combine_logs_def m1 m2)
  then show ?thesis
    using assms by (simp add: merge_logs_heap_def Let_def l1 l2 split: sum.splits)
qed

section \<open>Properties of \<^verbatim>\<open>_merge_logs\<close>\<close>

text \<open>
  C1. The output of \<^verbatim>\<open>_merge_logs\<close> has no two entries with the same triple
  (timestamp, tag, message). For two entries with the same triple, merging the
  one-element lists gives a one-element list, and the entry kept is the one of the
  first (cache) list; in general every output entry whose triple occurs in the cache's
  list is an element of the cache's list.
\<close>

theorem merge_logs_no_duplicate_keys:
  "distinct (map log_key (merge_logs cache_logs db_logs))
   \<and> (log_key e1 = log_key e2 \<longrightarrow> merge_logs [e1] [e2] = [e1])
   \<and> (\<forall>e \<in> set (merge_logs cache_logs db_logs).
        log_key e \<in> log_key ` set cache_logs \<longrightarrow> e \<in> set cache_logs)"
proof (intro conjI)
  have "distinct (map log_key (combine_logs cache_logs db_logs))"
    by (rule combine_logs_distinct)
  then show "distinct (map log_key (merge_logs cache_logs db_logs))"
    by (simp add: merge_logs_def distinct_map)
  show "log_key e1 = log_key e2 \<longrightarrow> merge_logs [e1] [e2] = [e1]"
    by (simp add: merge_logs_def combine_logs_def)
  show "\<forall>e \<in> set (merge_logs cache_logs db_logs).
          log_key e \<in> log_key ` set cache_logs \<longrightarrow> e \<in> set cache_logs"
    by (auto simp: merge_logs_def intro: combine_logs_primary)
qed

text \<open>
  Two entries with the same triple that differ in what else they carry: the merge keeps
  the first list's entry.
\<close>

theorem merge_logs_no_duplicate_keys_witness:
  "log_key \<lparr>timestamp = (600::int), tag = ''INFO'', message = ''x'', \<dots> = (1::nat)\<rparr>
     = log_key \<lparr>timestamp = (600::int), tag = ''INFO'', message = ''x'', \<dots> = (2::nat)\<rparr>
   \<and> merge_logs [\<lparr>timestamp = (600::int), tag = ''INFO'', message = ''x'', \<dots> = (1::nat)\<rparr>]
                 [\<lparr>timestamp = (600::int), tag = ''INFO'', message = ''x'', \<dots> = (2::nat)\<rparr>]
     = [\<lparr>timestamp = (600::int), tag = ''INFO'', message = ''x'', \<dots> = (1::nat)\<rparr>]
   \<and> distinct (map log_key
        (merge_logs [\<lparr>timestamp = (600::int), tag = ''INFO'', message = ''x'', \<dots> = (1::nat)\<rparr>]
                    [\<lparr>timestamp = (600::int), tag = ''INFO'', message = ''x'', \<dots> = (2::nat)\<rparr>]))"
proof -
  have k: "log_key \<lparr>timestamp = (600::int), tag = ''INFO'', message = ''x'', \<dots> = (1::nat)\<rparr>
     = log_key \<lparr>timestamp = (600::int), tag = ''INFO'', message = ''x'', \<dots> = (2::nat)\<rparr>"
    by (simp add: log_key_def)
  from merge_logs_no_duplicate_keys
    [of "[\<lparr>timestamp = (600::int), tag = ''INFO'', message = ''x'', \<dots> = (1::nat)\<rparr>]"
        "[\<lparr>timestamp = (600::int), tag = ''INFO'', message = ''x'', \<dots> = (2::nat)\<rparr>]"
        "\<lparr>timestamp = (600::int), tag = ''INFO'', message = ''x'', \<dots> = (1::nat)\<rparr>"
        "\<lparr>timestamp = (600::int), tag = ''INFO'', message = ''x'', \<dots> = (2::nat)\<rparr>"] k
  show ?thesis by blast
qed

text \<open>
  C2. The output of \<^verbatim>\<open>_merge_logs\<close> is non-decreasing by timestamp, and the entries
  of any one timestamp stand in the output in the order in which the combined list has
  them, which is their order in the concatenation of the cache's list and the
  database's list.
\<close>

theorem merge_logs_sorted_stable:
  "sorted (map timestamp (merge_logs cache_logs db_logs))
   \<and> filter (\<lambda>e. timestamp e = t) (merge_logs cache_logs db_logs)
       = filter (\<lambda>e. timestamp e = t) (combine_logs cache_logs db_logs)
   \<and> subseq (filter (\<lambda>e. timestamp e = t) (merge_logs cache_logs db_logs))
       (cache_logs @ db_logs)"
proof (intro conjI)
  show "sorted (map timestamp (merge_logs cache_logs db_logs))"
    by (simp add: merge_logs_def)
  show eq: "filter (\<lambda>e. timestamp e = t) (merge_logs cache_logs db_logs)
       = filter (\<lambda>e. timestamp e = t) (combine_logs cache_logs db_logs)"
    unfolding merge_logs_def by (rule sort_key_stable)
  have "subseq (filter (\<lambda>e. timestamp e = t) (combine_logs cache_logs db_logs))
          (combine_logs cache_logs db_logs)"
    by (rule subseq_filter_left)
  then have "subseq (filter (\<lambda>e. timestamp e = t) (combine_logs cache_logs db_logs))
          (cache_logs @ db_logs)"
    by (rule subseq_order.order_trans) (rule combine_logs_subseq)
  then show "subseq (filter (\<lambda>e. timestamp e = t) (merge_logs cache_logs db_logs))
       (cache_logs @ db_logs)"
    by (simp only: eq)
qed

text \<open>
  The cache has two entries of timestamp 600, the database an older entry and a copy
  of the cache's first entry: the two entries of timestamp 600 keep their order.
\<close>

theorem merge_logs_sorted_stable_witness:
  "sorted (map timestamp
     (merge_logs [\<lparr>timestamp = (600::int), tag = ''INFO'', message = ''b''\<rparr>,
                  \<lparr>timestamp = (600::int), tag = ''INFO'', message = ''a''\<rparr>]
                 [\<lparr>timestamp = (100::int), tag = ''WARN'', message = ''y''\<rparr>,
                  \<lparr>timestamp = (600::int), tag = ''INFO'', message = ''b''\<rparr>]))
   \<and> filter (\<lambda>e. timestamp e = 600)
       (merge_logs [\<lparr>timestamp = (600::int), tag = ''INFO'', message = ''b''\<rparr>,
                    \<lparr>timestamp = (600::int), tag = ''INFO'', message = ''a''\<rparr>]
                   [\<lparr>timestamp = (100::int), tag = ''WARN'', message = ''y''\<rparr>,
                    \<lparr>timestamp = (600::int), tag = ''INFO'', message = ''b''\<rparr>])
     = [\<lparr>timestamp = (600::int), tag = ''INFO'', message = ''b''\<rparr>,
        \<lparr>timestamp = (600::int), tag = ''INFO'', message = ''a''\<rparr>]"
  using merge_logs_sorted_stable
    [of "[\<lparr>timestamp = (600::int), tag = ''INFO'', message = ''b''\<rparr>,
          \<lparr>timestamp = (600::int), tag = ''INFO'', message = ''a''\<rparr>]"
        "[\<lparr>timestamp = (100::int), tag = ''WARN'', message = ''y''\<rparr>,
          \<lparr>timestamp = (600::int), tag = ''INFO'', message = ''b''\<rparr>]" 600]
  by (simp add: combine_logs_def log_key_def)

text \<open>
  C9. \<^verbatim>\<open>_merge_logs\<close> neither loses nor invents log events: the triples of the
  output are the triples of the two inputs, and every output entry is an element of
  one of the two input lists.
\<close>

theorem merge_logs_keys_preserved:
  "log_key ` set (merge_logs cache_logs db_logs)
     = log_key ` set cache_logs \<union> log_key ` set db_logs
   \<and> set (merge_logs cache_logs db_logs) \<subseteq> set cache_logs \<union> set db_logs"
proof
  show "log_key ` set (merge_logs cache_logs db_logs)
     = log_key ` set cache_logs \<union> log_key ` set db_logs"
    by (simp add: merge_logs_def combine_logs_keys)
  have "set (combine_logs cache_logs db_logs) \<subseteq> set (cache_logs @ db_logs)"
    by (rule subseq_set_mono) (rule combine_logs_subseq)
  then show "set (merge_logs cache_logs db_logs) \<subseteq> set cache_logs \<union> set db_logs"
    by (simp add: merge_logs_def)
qed

text \<open>A list of one entry merged with the empty list: nothing is lost, nothing is added.\<close>

theorem merge_logs_keys_preserved_witness:
  "log_key ` set (merge_logs [\<lparr>timestamp = (900::int), tag = ''INFO'', message = ''x''\<rparr>] [])
     = {(900::int, ''INFO'', ''x'')}
   \<and> set (merge_logs [\<lparr>timestamp = (900::int), tag = ''INFO'', message = ''x''\<rparr>] [])
       \<subseteq> {\<lparr>timestamp = (900::int), tag = ''INFO'', message = ''x''\<rparr>}"
  using merge_logs_keys_preserved
    [of "[\<lparr>timestamp = (900::int), tag = ''INFO'', message = ''x''\<rparr>]" "[]"]
  by (simp add: log_key_def)

text \<open>
  Two lists of one entry each, with the same tag and message and the same count of
  microseconds, the cache's timestamp naive and the database's aware (C6): the keys
  differ, both entries are kept, and the sort raises. The call does not return a list.
\<close>

theorem merge_logs_heap_raises_on_mixed_kinds:
  "merge_logs_heap 0 1
     [[\<lparr>timestamp = Naive 900, tag = ''INFO'', message = ''x''\<rparr>],
      [\<lparr>timestamp = Aware 900, tag = ''INFO'', message = ''x''\<rparr>]]
   = Some (Inl (TypeError ''can't compare offset-naive and offset-aware datetimes''),
           [[\<lparr>timestamp = Naive 900, tag = ''INFO'', message = ''x''\<rparr>],
            [\<lparr>timestamp = Aware 900, tag = ''INFO'', message = ''x''\<rparr>]])"
proof -
  let ?h = "[[\<lparr>timestamp = Naive 900, tag = ''INFO'', message = ''x''\<rparr>],
      [\<lparr>timestamp = Aware 900, tag = ''INFO'', message = ''x''\<rparr>]]"
  have "merge_logs_heap 0 1 ?h
      = Some (case merge_logs_datetime (?h ! 0) (?h ! 1) of
                Inl e \<Rightarrow> (Inl e, ?h)
              | Inr sorted_logs \<Rightarrow> (Inr (length ?h), ?h @ [sorted_logs]))"
    by (rule merge_logs_heap_eq) simp_all
  then show ?thesis
    by (simp add: merge_logs_datetime_eq one_kind_def)
qed

text \<open>
  C6, as amended. \<^verbatim>\<open>_merge_logs\<close> is deterministic, has no effect on the collaborators
  or the output, and changes neither of its arguments: for every store and every two
  list objects in it (they may be the same object), the call ends, and how it ends
  depends on the contents of the two lists alone. When all their timestamps are of one
  kind, it returns a new list object, whose content is the combined list sorted by
  timestamp, and every object that existed before the call, the two arguments among
  them, has the content it had. When the two lists hold a naive and an aware
  timestamp, it raises the \<^verbatim>\<open>TypeError\<close> of the sort, and again every object has the
  content it had. The outcome is the same in a store that holds further objects.
  Merging two empty lists gives the empty list.
\<close>

theorem merge_logs_heap_outcome:
  fixes h :: "(datetime, 'a) heap"
  assumes "cache_logs < length h" and "db_logs < length h"
  shows "merge_logs_heap cache_logs db_logs h
           = Some (if one_kind (h ! cache_logs @ h ! db_logs)
                   then (Inr (length h),
                         h @ [sort_key (\<lambda>log. instant (timestamp log))
                                (combine_logs (h ! cache_logs) (h ! db_logs))])
                   else (Inl (TypeError ''can't compare offset-naive and offset-aware datetimes''),
                         h))
       \<and> merge_logs_heap cache_logs db_logs (h @ h')
           = Some (if one_kind (h ! cache_logs @ h ! db_logs)
                   then (Inr (length (h @ h')),
                         h @ h' @ [sort_key (\<lambda>log. instant (timestamp log))
                                     (combine_logs (h ! cache_logs) (h ! db_logs))])
                   else (Inl (TypeError ''can't compare offset-naive and offset-aware datetimes''),
                         h @ h'))
       \<and> merge_logs_datetime [] [] = (Inr [] :: exn + (datetime, 'a) LogEntry_scheme list)"
proof (intro conjI)
  show "merge_logs_heap cache_logs db_logs h
           = Some (if one_kind (h ! cache_logs @ h ! db_logs)
                   then (Inr (length h),
                         h @ [sort_key (\<lambda>log. instant (timestamp log))
                                (combine_logs (h ! cache_logs) (h ! db_logs))])
                   else (Inl (TypeError ''can't compare offset-naive and offset-aware datetimes''),
                         h))"
    using assms by (simp add: merge_logs_heap_eq merge_logs_datetime_eq)
  have "merge_logs_heap cache_logs db_logs (h @ h')
      = Some (case merge_logs_datetime ((h @ h') ! cache_logs) ((h @ h') ! db_logs) of
                Inl e \<Rightarrow> (Inl e, h @ h')
              | Inr sorted_logs \<Rightarrow> (Inr (length (h @ h')), (h @ h') @ [sorted_logs]))"
    using assms by (intro merge_logs_heap_eq) simp_all
  then show "merge_logs_heap cache_logs db_logs (h @ h')
           = Some (if one_kind (h ! cache_logs @ h ! db_logs)
                   then (Inr (length (h @ h')),
                         h @ h' @ [sort_key (\<lambda>log. instant (timestamp log))
                                     (combine_logs (h ! cache_logs) (h ! db_logs))])
                   else (Inl (TypeError ''can't compare offset-naive and offset-aware datetimes''),
                         h @ h'))"
    using assms by (simp add: merge_logs_datetime_eq nth_append)
  show "merge_logs_datetime [] [] = (Inr [] :: exn + (datetime, 'a) LogEntry_scheme list)"
    by (simp add: merge_logs_datetime_eq one_kind_def combine_logs_def)
qed

text \<open>
  A store with the cache's list at address 0 and the database's list at address 1, all
  timestamps naive: the call returns address 2, where the merged list is, and the
  lists at 0 and 1 are as they were.
\<close>

theorem merge_logs_heap_outcome_witness:
  "(0::nat) < length [[\<lparr>timestamp = Naive 900, tag = ''INFO'', message = ''x''\<rparr>],
                      [\<lparr>timestamp = Naive 900, tag = ''INFO'', message = ''x''\<rparr>,
                       \<lparr>timestamp = Naive 100, tag = ''WARN'', message = ''y''\<rparr>]]
   \<and> (1::nat) < length [[\<lparr>timestamp = Naive 900, tag = ''INFO'', message = ''x''\<rparr>],
                      [\<lparr>timestamp = Naive 900, tag = ''INFO'', message = ''x''\<rparr>,
                       \<lparr>timestamp = Naive 100, tag = ''WARN'', message = ''y''\<rparr>]]
   \<and> merge_logs_heap 0 1
        [[\<lparr>timestamp = Naive 900, tag = ''INFO'', message = ''x''\<rparr>],
         [\<lparr>timestamp = Naive 900, tag = ''INFO'', message = ''x''\<rparr>,
          \<lparr>timestamp = Naive 100, tag = ''WARN'', message = ''y''\<rparr>]]
     = Some (Inr 2,
        [[\<lparr>timestamp = Naive 900, tag = ''INFO'', message = ''x''\<rparr>],
         [\<lparr>timestamp = Naive 900, tag = ''INFO'', message = ''x''\<rparr>,
          \<lparr>timestamp = Naive 100, tag = ''WARN'', message = ''y''\<rparr>],
         [\<lparr>timestamp = Naive 100, tag = ''WARN'', message = ''y''\<rparr>,
          \<lparr>timestamp = Naive 900, tag = ''INFO'', message = ''x''\<rparr>]])"
proof -
  let ?h = "[[\<lparr>timestamp = Naive 900, tag = ''INFO'', message = ''x''\<rparr>],
         [\<lparr>timestamp = Naive 900, tag = ''INFO'', message = ''x''\<rparr>,
          \<lparr>timestamp = Naive 100, tag = ''WARN'', message = ''y''\<rparr>]]"
  have h0: "(0::nat) < length ?h" and h1: "(1::nat) < length ?h"
    by simp_all
  have k: "one_kind (?h ! 0 @ ?h ! 1)"
    by (simp add: one_kind_def)
  have m: "sort_key (\<lambda>log. instant (timestamp log)) (combine_logs (?h ! 0) (?h ! 1))
      = [\<lparr>timestamp = Naive 100, tag = ''WARN'', message = ''y''\<rparr>,
          \<lparr>timestamp = Naive 900, tag = ''INFO'', message = ''x''\<rparr>]"
    by (simp add: combine_logs_def log_key_def)
  from merge_logs_heap_outcome [OF h0 h1, of "[]"] show ?thesis
    unfolding m if_P [OF k] by (simp add: numeral_2_eq_2)
qed

section \<open>Properties of the endpoints\<close>

text \<open>What \<^verbatim>\<open>__prune_logs\<close> does, by the outcome of \<^verbatim>\<open>prune_cache\<close>.\<close>

lemma prune_logs_eq:
  "prune_logs cache w =
     (case prune_cache cache (cache_state w) of
        (Inr p, c) \<Rightarrow>
          (Some p, w\<lparr>cache_state := c, trace := trace w @ [Cache_prune_cache, Print_pruned p]\<rparr>)
      | (Inl e, c) \<Rightarrow>
          (None, w\<lparr>cache_state := c, trace := trace w @ [Cache_prune_cache, Print_error e]\<rparr>))"
  by (simp add: prune_logs_def emit_def Let_def split: prod.splits sum.splits)

text \<open>
  The loop of \<^verbatim>\<open>add_logs\<close> leaves the cache as \<^const>\<open>add_in_order\<close> says, and
  prints and adds every entry that \<^verbatim>\<open>add_log\<close> was called with.
\<close>

lemma add_each_eq:
  "add_each cache logs w =
     (case add_in_order cache logs (cache_state w) of
        (r, c, called) \<Rightarrow>
          (r, w\<lparr>cache_state := c,
                trace := trace w @ concat (map (\<lambda>l. [Print_entry l, Cache_add_log l]) called)\<rparr>))"
proof (induction logs arbitrary: w)
  case Nil
  show ?case by simp
next
  case (Cons l ls)
  show ?case
  proof (cases "add_log cache l (cache_state w)")
    case (Pair r c1)
    show ?thesis
    proof (cases r)
      case (Inl e)
      with Pair show ?thesis
        by (simp add: emit_def Let_def)
    next
      case (Inr u)
      with Pair Cons.IH [of "(emit (Cache_add_log l) (emit (Print_entry l) w))\<lparr>cache_state := c1\<rparr>"]
      show ?thesis
        by (simp add: emit_def Let_def split: prod.splits)
    qed
  qed
qed

lemma add_in_order_called:
  "add_in_order cache logs c = (r, c', called) \<Longrightarrow>
   prefix called logs \<and> (r = Inr () \<longrightarrow> called = logs)"
proof (induction logs arbitrary: c r c' called)
  case Nil
  then show ?case by simp
next
  case (Cons l ls)
  obtain r1 c1 where a: "add_log cache l c = (r1, c1)"
    by (cases "add_log cache l c")
  show ?case
  proof (cases r1)
    case (Inl e)
    with a Cons.prems show ?thesis
      by auto
  next
    case (Inr u)
    obtain r2 c2 called2 where o: "add_in_order cache ls c1 = (r2, c2, called2)"
      by (cases "add_in_order cache ls c1")
    with a Inr Cons.prems have "r = r2" "called = l # called2"
      by auto
    with Cons.IH [OF o] show ?thesis
      by simp
  qed
qed

lemma add_in_order_all:
  "fst (add_in_order cache logs c) = Inr () \<Longrightarrow> snd (snd (add_in_order cache logs c)) = logs"
  using add_in_order_called [of cache logs c] by (cases "add_in_order cache logs c") auto

lemma add_in_order_prefix:
  "prefix (snd (snd (add_in_order cache logs c))) logs"
  using add_in_order_called [of cache logs c] by (cases "add_in_order cache logs c") auto

lemma add_in_order_returns:
  assumes "add_log_returns cache"
  shows "add_in_order cache logs c
           = (Inr (), fold (\<lambda>l c. snd (add_log cache l c)) logs c, logs)"
proof (induction logs arbitrary: c)
  case Nil
  show ?case by simp
next
  case (Cons l ls)
  from assms obtain c1 where "add_log cache l c = (Inr (), c1)"
    unfolding add_log_returns_def by blast
  with Cons.IH [of c1] show ?case
    by simp
qed

lemma add_submission_background:
  "background (snd (add_submission cache log_list w)) = background w"
  by (cases log_list)
     (auto simp: add_submission_def add_each_eq emit_def Let_def split: prod.splits sum.splits)

lemma add_submission_returns:
  assumes "add_log_returns cache" and "log_list \<noteq> Other_obj"
  shows "\<exists>n w1. add_submission cache log_list w = (Inr n, w1)"
proof (cases log_list)
  case (LogEntry_obj log_entry)
  from assms(1) obtain c where "add_log cache log_entry (cache_state w) = (Inr (), c)"
    unfolding add_log_returns_def by blast
  with LogEntry_obj show ?thesis
    by (simp add: add_submission_def emit_def Let_def)
next
  case (LogList_obj logs)
  with add_in_order_returns [OF assms(1), of logs "cache_state w"] show ?thesis
    by (simp add: add_submission_def add_each_eq)
next
  case Other_obj
  with assms(2) show ?thesis by simp
qed

text \<open>
  Once the entries are in the cache, \<^verbatim>\<open>add_logs\<close> prunes, adds the task and returns
  the response with status 201, whatever \<^verbatim>\<open>__prune_logs\<close> returned.
\<close>

lemma add_logs_after_submission:
  assumes "add_submission cache log_list w = (Inr n, w1)"
    and "prune_logs cache w1 = (p, w2)"
  shows "add_logs cache log_list w =
     (Inr (JSONResponse (Message_count (''Successfully added '' @ str_nat n @ '' logs'') n) 201),
      w2\<lparr>background := background w2 @ [Save_pruned_logs p],
         trace := trace w2 @ [Add_task (Save_pruned_logs p)]\<rparr>)"
  using assms by (simp add: add_logs_def emit_def Let_def)

text \<open>
  C5. \<^verbatim>\<open>add_logs\<close> adds the entries of a submission to the cache one at a time, in
  the order of the submission. For a \<^verbatim>\<open>LogList\<close> the cache is left as
  \<^const>\<open>add_in_order\<close> leaves it: \<^verbatim>\<open>add_log\<close> is applied to the entries in list
  order, each call in the state of the cache that the call before it left, and every
  entry it is applied to is printed and added, in that order. When a call of
  \<^verbatim>\<open>add_log\<close> raises, the exception leaves \<^verbatim>\<open>add_logs\<close> and there is no
  acknowledgment; the entries that \<^verbatim>\<open>add_log\<close> was called with are then a prefix of
  the list. When all calls return, they were made with all entries of the list, the
  cache is pruned, the task is added, and the response has status 201 and a count equal
  to the length of the list. For a single \<^verbatim>\<open>LogEntry\<close> there is one call of
  \<^verbatim>\<open>add_log\<close>, with that entry, and the count is 1. When \<^verbatim>\<open>add_log\<close> returns for
  every entry in every state, the cache after the adds is the fold of \<^verbatim>\<open>add_log\<close>
  over the list.
\<close>

theorem add_logs_adds_in_order_and_counts:
  "add_logs cache (LogList_obj logs) w =
     (case add_in_order cache logs (cache_state w) of
        (r, c, called) \<Rightarrow>
          (let w1 = w\<lparr>cache_state := c,
                      trace := trace w
                        @ concat (map (\<lambda>l. [Print_entry l, Cache_add_log l]) called)\<rparr>
           in case r of
                Inl e \<Rightarrow> (Inl e, w1)
              | Inr u \<Rightarrow>
                  (let pruned_logs = fst (prune_logs cache w1); w2 = snd (prune_logs cache w1)
                   in (Inr (JSONResponse
                             (Message_count
                                (''Successfully added '' @ str_nat (length logs) @ '' logs'')
                                (length logs))
                             201),
                       w2\<lparr>background := background w2 @ [Save_pruned_logs pruned_logs],
                          trace := trace w2 @ [Add_task (Save_pruned_logs pruned_logs)]\<rparr>))))
   \<and> add_logs cache (LogEntry_obj log_entry) w =
     (case add_log cache log_entry (cache_state w) of
        (r, c) \<Rightarrow>
          (let w1 = w\<lparr>cache_state := c, trace := trace w @ [Cache_add_log log_entry]\<rparr>
           in case r of
                Inl e \<Rightarrow> (Inl e, w1)
              | Inr u \<Rightarrow>
                  (let pruned_logs = fst (prune_logs cache w1); w2 = snd (prune_logs cache w1)
                   in (Inr (JSONResponse
                             (Message_count (''Successfully added '' @ str_nat 1 @ '' logs'') 1)
                             201),
                       w2\<lparr>background := background w2 @ [Save_pruned_logs pruned_logs],
                          trace := trace w2 @ [Add_task (Save_pruned_logs pruned_logs)]\<rparr>))))
   \<and> prefix (snd (snd (add_in_order cache logs c0))) logs
   \<and> (fst (add_in_order cache logs c0) = Inr ()
        \<longrightarrow> snd (snd (add_in_order cache logs c0)) = logs)
   \<and> (add_log_returns cache
        \<longrightarrow> add_in_order cache logs c0
              = (Inr (), fold (\<lambda>l c. snd (add_log cache l c)) logs c0, logs))"
proof (intro conjI impI)
  show "add_logs cache (LogList_obj logs) w =
     (case add_in_order cache logs (cache_state w) of
        (r, c, called) \<Rightarrow>
          (let w1 = w\<lparr>cache_state := c,
                      trace := trace w
                        @ concat (map (\<lambda>l. [Print_entry l, Cache_add_log l]) called)\<rparr>
           in case r of
                Inl e \<Rightarrow> (Inl e, w1)
              | Inr u \<Rightarrow>
                  (let pruned_logs = fst (prune_logs cache w1); w2 = snd (prune_logs cache w1)
                   in (Inr (JSONResponse
                             (Message_count
                                (''Successfully added '' @ str_nat (length logs) @ '' logs'')
                                (length logs))
                             201),
                       w2\<lparr>background := background w2 @ [Save_pruned_logs pruned_logs],
                          trace := trace w2 @ [Add_task (Save_pruned_logs pruned_logs)]\<rparr>))))"
  proof (cases "add_in_order cache logs (cache_state w)")
    case (fields r c called)
    then have "r = Inr () \<longrightarrow> called = logs"
      using add_in_order_called [of cache logs "cache_state w" r c called] by simp
    with fields show ?thesis
      by (cases r)
         (simp_all add: add_logs_def add_submission_def add_each_eq emit_def Let_def
            case_prod_beta)
  qed
  show "add_logs cache (LogEntry_obj log_entry) w =
     (case add_log cache log_entry (cache_state w) of
        (r, c) \<Rightarrow>
          (let w1 = w\<lparr>cache_state := c, trace := trace w @ [Cache_add_log log_entry]\<rparr>
           in case r of
                Inl e \<Rightarrow> (Inl e, w1)
              | Inr u \<Rightarrow>
                  (let pruned_logs = fst (prune_logs cache w1); w2 = snd (prune_logs cache w1)
                   in (Inr (JSONResponse
                             (Message_count (''Successfully added '' @ str_nat 1 @ '' logs'') 1)
                             201),
                       w2\<lparr>background := background w2 @ [Save_pruned_logs pruned_logs],
                          trace := trace w2 @ [Add_task (Save_pruned_logs pruned_logs)]\<rparr>))))"
  proof (cases "add_log cache log_entry (cache_state w)")
    case (Pair r c)
    let ?w1 = "w\<lparr>cache_state := c, trace := trace w @ [Cache_add_log log_entry]\<rparr>"
    show ?thesis
    proof (cases r)
      case (Inl e)
      with Pair have "add_submission cache (LogEntry_obj log_entry) w = (Inl e, ?w1)"
        by (simp add: add_submission_def emit_def Let_def)
      with Pair Inl show ?thesis
        by (simp add: add_logs_def)
    next
      case (Inr u)
      with Pair have s: "add_submission cache (LogEntry_obj log_entry) w = (Inr 1, ?w1)"
        by (simp add: add_submission_def emit_def Let_def)
      obtain p w2 where p: "prune_logs cache ?w1 = (p, w2)"
        by (cases "prune_logs cache ?w1")
      from add_logs_after_submission [OF s p] Pair Inr p show ?thesis
        by (simp add: Let_def)
    qed
  qed
  show "prefix (snd (snd (add_in_order cache logs c0))) logs"
    by (rule add_in_order_prefix)
  show "snd (snd (add_in_order cache logs c0)) = logs"
    if "fst (add_in_order cache logs c0) = Inr ()"
    using that by (rule add_in_order_all)
  show "add_in_order cache logs c0
              = (Inr (), fold (\<lambda>l c. snd (add_log cache l c)) logs c0, logs)"
    if "add_log_returns cache"
    using that by (rule add_in_order_returns)
qed

text \<open>
  A batch of three entries in an empty cache: three calls of \<^verbatim>\<open>add_log\<close> in list
  order, the cache holds the three entries in that order, and the count is 3.
\<close>

theorem add_logs_adds_in_order_and_counts_witness:
  "add_log_returns (spec_cache 1000 300 :: (int LogEntry, int LogEntry list) TemporalCache)
   \<and> add_in_order (spec_cache 1000 300)
        [\<lparr>timestamp = (900::int), tag = ''INFO'', message = ''a''\<rparr>,
         \<lparr>timestamp = (800::int), tag = ''INFO'', message = ''b''\<rparr>,
         \<lparr>timestamp = (950::int), tag = ''WARN'', message = ''c''\<rparr>] []
     = (Inr (),
        [\<lparr>timestamp = (900::int), tag = ''INFO'', message = ''a''\<rparr>,
         \<lparr>timestamp = (800::int), tag = ''INFO'', message = ''b''\<rparr>,
         \<lparr>timestamp = (950::int), tag = ''WARN'', message = ''c''\<rparr>],
        [\<lparr>timestamp = (900::int), tag = ''INFO'', message = ''a''\<rparr>,
         \<lparr>timestamp = (800::int), tag = ''INFO'', message = ''b''\<rparr>,
         \<lparr>timestamp = (950::int), tag = ''WARN'', message = ''c''\<rparr>])
   \<and> add_logs (spec_cache 1000 300)
        (LogList_obj [\<lparr>timestamp = (900::int), tag = ''INFO'', message = ''a''\<rparr>,
                      \<lparr>timestamp = (800::int), tag = ''INFO'', message = ''b''\<rparr>,
                      \<lparr>timestamp = (950::int), tag = ''WARN'', message = ''c''\<rparr>]) world0
     = (Inr (JSONResponse (Message_count ''Successfully added 3 logs'' 3) 201),
        \<lparr>cache_state = [\<lparr>timestamp = (900::int), tag = ''INFO'', message = ''a''\<rparr>,
                        \<lparr>timestamp = (800::int), tag = ''INFO'', message = ''b''\<rparr>,
                        \<lparr>timestamp = (950::int), tag = ''WARN'', message = ''c''\<rparr>],
         db_state = [],
         background = [Save_pruned_logs (Some [])],
         trace = [Print_entry \<lparr>timestamp = (900::int), tag = ''INFO'', message = ''a''\<rparr>,
                  Cache_add_log \<lparr>timestamp = (900::int), tag = ''INFO'', message = ''a''\<rparr>,
                  Print_entry \<lparr>timestamp = (800::int), tag = ''INFO'', message = ''b''\<rparr>,
                  Cache_add_log \<lparr>timestamp = (800::int), tag = ''INFO'', message = ''b''\<rparr>,
                  Print_entry \<lparr>timestamp = (950::int), tag = ''WARN'', message = ''c''\<rparr>,
                  Cache_add_log \<lparr>timestamp = (950::int), tag = ''WARN'', message = ''c''\<rparr>,
                  Cache_prune_cache, Print_pruned [],
                  Add_task (Save_pruned_logs (Some []))]\<rparr>)"
proof -
  let ?logs = "[\<lparr>timestamp = (900::int), tag = ''INFO'', message = ''a''\<rparr>,
                \<lparr>timestamp = (800::int), tag = ''INFO'', message = ''b''\<rparr>,
                \<lparr>timestamp = (950::int), tag = ''WARN'', message = ''c''\<rparr>] :: int LogEntry list"
  have h: "add_log_returns (spec_cache 1000 300 :: (int LogEntry, int LogEntry list) TemporalCache)"
    by (simp add: add_log_returns_def spec_cache_def)
  have f: "fold (\<lambda>l c. snd (add_log (spec_cache 1000 300) l c)) ?logs [] = ?logs"
    by (simp add: spec_cache_def)
  have c: "cache_state (world0 :: (int LogEntry, int LogEntry list, int LogEntry list) world) = []"
    by (simp add: world0_def)
  have s: "str_nat 3 = ''3''"
    by (simp add: str_nat.simps)
  from add_logs_adds_in_order_and_counts
    [of "spec_cache 1000 300" ?logs world0
        "\<lparr>timestamp = 900, tag = ''INFO'', message = ''a''\<rparr>" "[]"] h
  have o: "add_in_order (spec_cache 1000 300) ?logs [] = (Inr (), ?logs, ?logs)"
    and a: "add_logs (spec_cache 1000 300) (LogList_obj ?logs) world0 =
     (case add_in_order (spec_cache 1000 300) ?logs (cache_state world0) of
        (r, c, called) \<Rightarrow>
          (let w1 = world0\<lparr>cache_state := c,
                      trace := trace world0
                        @ concat (map (\<lambda>l. [Print_entry l, Cache_add_log l]) called)\<rparr>
           in case r of
                Inl e \<Rightarrow> (Inl e, w1)
              | Inr u \<Rightarrow>
                  (let pruned_logs = fst (prune_logs (spec_cache 1000 300) w1);
                       w2 = snd (prune_logs (spec_cache 1000 300) w1)
                   in (Inr (JSONResponse
                             (Message_count
                                (''Successfully added '' @ str_nat (length ?logs) @ '' logs'')
                                (length ?logs))
                             201),
                       w2\<lparr>background := background w2 @ [Save_pruned_logs pruned_logs],
                          trace := trace w2 @ [Add_task (Save_pruned_logs pruned_logs)]\<rparr>))))"
    by (simp_all only: f)
  have "add_logs (spec_cache 1000 300) (LogList_obj ?logs) world0
     = (Inr (JSONResponse (Message_count ''Successfully added 3 logs'' 3) 201),
        \<lparr>cache_state = ?logs, db_state = [],
         background = [Save_pruned_logs (Some [])],
         trace = [Print_entry \<lparr>timestamp = (900::int), tag = ''INFO'', message = ''a''\<rparr>,
                  Cache_add_log \<lparr>timestamp = (900::int), tag = ''INFO'', message = ''a''\<rparr>,
                  Print_entry \<lparr>timestamp = (800::int), tag = ''INFO'', message = ''b''\<rparr>,
                  Cache_add_log \<lparr>timestamp = (800::int), tag = ''INFO'', message = ''b''\<rparr>,
                  Print_entry \<lparr>timestamp = (950::int), tag = ''WARN'', message = ''c''\<rparr>,
                  Cache_add_log \<lparr>timestamp = (950::int), tag = ''WARN'', message = ''c''\<rparr>,
                  Cache_prune_cache, Print_pruned [],
                  Add_task (Save_pruned_logs (Some []))]\<rparr>)"
    unfolding a c o
    by (simp add: prune_logs_eq spec_cache_def world0_def str_nat.simps Let_def)
  with h o show ?thesis
    by simp
qed

text \<open>
  C10. For an argument that is a \<^verbatim>\<open>LogEntry\<close> or a \<^verbatim>\<open>LogList\<close>, the assertion of
  \<^verbatim>\<open>add_logs\<close> holds, and when the cache's \<^verbatim>\<open>add_log\<close> returns for every entry,
  \<^verbatim>\<open>add_logs\<close> returns a response with status 201: nothing in \<^verbatim>\<open>add_logs\<close> looks at
  the content of an entry.
\<close>

theorem add_logs_accepts_declared_types:
  assumes "add_log_returns cache" and "log_list \<noteq> Other_obj"
  shows "\<exists>response w'. add_logs cache log_list w = (Inr response, w')
           \<and> status_code response = 201"
proof -
  from add_submission_returns [OF assms] obtain n w1 where s: "add_submission cache log_list w = (Inr n, w1)"
    by blast
  obtain p w2 where p: "prune_logs cache w1 = (p, w2)"
    by (cases "prune_logs cache w1")
  from add_logs_after_submission [OF s p] show ?thesis
    by simp
qed

theorem add_logs_accepts_declared_types_witness:
  "add_log_returns (spec_cache 1000 300 :: (int LogEntry, int LogEntry list) TemporalCache)
   \<and> LogEntry_obj \<lparr>timestamp = (900::int), tag = ''INFO'', message = ''x''\<rparr> \<noteq> Other_obj
   \<and> (\<exists>response w'.
        add_logs (spec_cache 1000 300)
          (LogEntry_obj \<lparr>timestamp = (900::int), tag = ''INFO'', message = ''x''\<rparr>) world0
          = (Inr response, w')
        \<and> status_code response = 201)"
proof -
  have h: "add_log_returns (spec_cache 1000 300 :: (int LogEntry, int LogEntry list) TemporalCache)"
    by (simp add: add_log_returns_def spec_cache_def)
  have d: "LogEntry_obj \<lparr>timestamp = (900::int), tag = ''INFO'', message = ''x''\<rparr> \<noteq> Other_obj"
    by simp
  from add_logs_accepts_declared_types [OF h d, of world0] h d show ?thesis
    by blast
qed

text \<open>
  C7. When \<^verbatim>\<open>prune_cache\<close> raises after the entries of a submission are in the cache,
  \<^verbatim>\<open>__prune_logs\<close> prints the error and returns \<^verbatim>\<open>None\<close>, and \<^verbatim>\<open>add_logs\<close> returns
  the response with status 201 and the count of the submission: the exception does not
  reach the caller.
\<close>

theorem prune_failure_contained:
  assumes "add_submission cache log_list w = (Inr n, w1)"
    and "prune_cache cache (cache_state w1) = (Inl e, c)"
  shows "prune_logs cache w1 =
           (None, w1\<lparr>cache_state := c, trace := trace w1 @ [Cache_prune_cache, Print_error e]\<rparr>)
       \<and> add_logs cache log_list w =
           (Inr (JSONResponse
                  (Message_count (''Successfully added '' @ str_nat n @ '' logs'') n) 201),
            w1\<lparr>cache_state := c,
               background := background w1 @ [Save_pruned_logs None],
               trace := trace w1 @ [Cache_prune_cache, Print_error e,
                                    Add_task (Save_pruned_logs None)]\<rparr>)"
proof -
  have p: "prune_logs cache w1 =
           (None, w1\<lparr>cache_state := c, trace := trace w1 @ [Cache_prune_cache, Print_error e]\<rparr>)"
    using assms(2) by (simp add: prune_logs_eq)
  from add_logs_after_submission [OF assms(1) p] p show ?thesis
    by simp
qed

theorem prune_failure_contained_witness:
  "add_submission (failing_prune_cache ''disk full'')
      (LogEntry_obj \<lparr>timestamp = (900::int), tag = ''INFO'', message = ''x''\<rparr>) world0
     = (Inr 1, \<lparr>cache_state = [\<lparr>timestamp = (900::int), tag = ''INFO'', message = ''x''\<rparr>],
               db_state = [], background = [],
               trace = [Cache_add_log \<lparr>timestamp = (900::int), tag = ''INFO'', message = ''x''\<rparr>]\<rparr>)
   \<and> prune_cache (failing_prune_cache ''disk full'')
        [\<lparr>timestamp = (900::int), tag = ''INFO'', message = ''x''\<rparr>]
     = (Inl (Exception ''disk full''), [\<lparr>timestamp = (900::int), tag = ''INFO'', message = ''x''\<rparr>])
   \<and> add_logs (failing_prune_cache ''disk full'')
        (LogEntry_obj \<lparr>timestamp = (900::int), tag = ''INFO'', message = ''x''\<rparr>) world0
     = (Inr (JSONResponse (Message_count ''Successfully added 1 logs'' 1) 201),
        \<lparr>cache_state = [\<lparr>timestamp = (900::int), tag = ''INFO'', message = ''x''\<rparr>],
         db_state = [], background = [Save_pruned_logs None],
         trace = [Cache_add_log \<lparr>timestamp = (900::int), tag = ''INFO'', message = ''x''\<rparr>,
                  Cache_prune_cache, Print_error (Exception ''disk full''),
                  Add_task (Save_pruned_logs None)]\<rparr>)"
proof -
  have h1: "add_submission (failing_prune_cache ''disk full'')
      (LogEntry_obj \<lparr>timestamp = (900::int), tag = ''INFO'', message = ''x''\<rparr>) world0
     = (Inr 1, \<lparr>cache_state = [\<lparr>timestamp = (900::int), tag = ''INFO'', message = ''x''\<rparr>],
               db_state = [], background = [],
               trace = [Cache_add_log \<lparr>timestamp = (900::int), tag = ''INFO'', message = ''x''\<rparr>]\<rparr>)"
    by (simp add: add_submission_def failing_prune_cache_def spec_cache_def world0_def
          emit_def Let_def)
  have h2: "prune_cache (failing_prune_cache ''disk full'')
        (cache_state \<lparr>cache_state = [\<lparr>timestamp = (900::int), tag = ''INFO'', message = ''x''\<rparr>],
               db_state = [], background = [],
               trace = [Cache_add_log \<lparr>timestamp = (900::int), tag = ''INFO'', message = ''x''\<rparr>]\<rparr>)
     = (Inl (Exception ''disk full''), [\<lparr>timestamp = (900::int), tag = ''INFO'', message = ''x''\<rparr>])"
    by (simp add: failing_prune_cache_def)
  from prune_failure_contained [OF h1 h2] h1 h2 show ?thesis
    by (simp add: str_nat.simps)
qed

text \<open>
  C8. \<^verbatim>\<open>__save_pruned_logs\<close> calls \<^verbatim>\<open>save_logs\<close> exactly when its argument is a
  non-empty list, and then with that list: the database is left in the state that
  \<^verbatim>\<open>save_logs\<close>, applied to that list, leaves it in. For \<^verbatim>\<open>None\<close> and for the empty
  list it makes no call and changes nothing. In a request whose entries reached the
  cache, the database is therefore changed by one call of \<^verbatim>\<open>save_logs\<close> with the
  pruned entries, after the response, when \<^verbatim>\<open>prune_cache\<close> returned a non-empty list,
  and it is not touched when \<^verbatim>\<open>prune_cache\<close> returned the empty list or raised.
\<close>

theorem save_logs_iff_pruned_nonempty:
  "save_pruned_logs db_service pruned_logs w =
     (if pruned_logs = None \<or> pruned_logs = Some [] then (Inr (), w)
      else (fst (save_logs db_service (the pruned_logs) (db_state w)),
            w\<lparr>db_state := snd (save_logs db_service (the pruned_logs) (db_state w)),
              trace := trace w @ [Db_save_logs (the pruned_logs)]\<rparr>))
   \<and> (add_submission cache log_list (w\<lparr>background := []\<rparr>) = (Inr n, w1)
        \<longrightarrow> prune_cache cache (cache_state w1) = (r, c)
        \<longrightarrow> post_logs cache db_service log_list w =
             (Inr (JSONResponse
                    (Message_count (''Successfully added '' @ str_nat n @ '' logs'') n) 201),
              (case r of
                 Inl e \<Rightarrow>
                   w1\<lparr>cache_state := c,
                      trace := trace w1 @
                        [Cache_prune_cache, Print_error e, Add_task (Save_pruned_logs None),
                         Response_sent (JSONResponse
                           (Message_count (''Successfully added '' @ str_nat n @ '' logs'') n)
                           201)]\<rparr>
               | Inr [] \<Rightarrow>
                   w1\<lparr>cache_state := c,
                      trace := trace w1 @
                        [Cache_prune_cache, Print_pruned [],
                         Add_task (Save_pruned_logs (Some [])),
                         Response_sent (JSONResponse
                           (Message_count (''Successfully added '' @ str_nat n @ '' logs'') n)
                           201)]\<rparr>
               | Inr (l # ls) \<Rightarrow>
                   w1\<lparr>cache_state := c,
                      db_state := snd (save_logs db_service (l # ls) (db_state w1)),
                      trace := trace w1 @
                        [Cache_prune_cache, Print_pruned (l # ls),
                         Add_task (Save_pruned_logs (Some (l # ls))),
                         Response_sent (JSONResponse
                           (Message_count (''Successfully added '' @ str_nat n @ '' logs'') n)
                           201),
                         Db_save_logs (l # ls)]\<rparr>)))"
proof (intro conjI impI)
  show "save_pruned_logs db_service pruned_logs w =
     (if pruned_logs = None \<or> pruned_logs = Some [] then (Inr (), w)
      else (fst (save_logs db_service (the pruned_logs) (db_state w)),
            w\<lparr>db_state := snd (save_logs db_service (the pruned_logs) (db_state w)),
              trace := trace w @ [Db_save_logs (the pruned_logs)]\<rparr>))"
    by (simp add: save_pruned_logs_def emit_def Let_def
          split: option.splits list.splits prod.splits sum.splits)
next
  assume s: "add_submission cache log_list (w\<lparr>background := []\<rparr>) = (Inr n, w1)"
    and r: "prune_cache cache (cache_state w1) = (r, c)"
  have b: "background w1 = []"
    using s add_submission_background [of cache log_list "w\<lparr>background := []\<rparr>"] by simp
  obtain p w2 where p: "prune_logs cache w1 = (p, w2)"
    by (cases "prune_logs cache w1")
  from add_logs_after_submission [OF s p] p r b show "post_logs cache db_service log_list w =
             (Inr (JSONResponse
                    (Message_count (''Successfully added '' @ str_nat n @ '' logs'') n) 201),
              (case r of
                 Inl e \<Rightarrow>
                   w1\<lparr>cache_state := c,
                      trace := trace w1 @
                        [Cache_prune_cache, Print_error e, Add_task (Save_pruned_logs None),
                         Response_sent (JSONResponse
                           (Message_count (''Successfully added '' @ str_nat n @ '' logs'') n)
                           201)]\<rparr>
               | Inr [] \<Rightarrow>
                   w1\<lparr>cache_state := c,
                      trace := trace w1 @
                        [Cache_prune_cache, Print_pruned [],
                         Add_task (Save_pruned_logs (Some [])),
                         Response_sent (JSONResponse
                           (Message_count (''Successfully added '' @ str_nat n @ '' logs'') n)
                           201)]\<rparr>
               | Inr (l # ls) \<Rightarrow>
                   w1\<lparr>cache_state := c,
                      db_state := snd (save_logs db_service (l # ls) (db_state w1)),
                      trace := trace w1 @
                        [Cache_prune_cache, Print_pruned (l # ls),
                         Add_task (Save_pruned_logs (Some (l # ls))),
                         Response_sent (JSONResponse
                           (Message_count (''Successfully added '' @ str_nat n @ '' logs'') n)
                           201),
                         Db_save_logs (l # ls)]\<rparr>))"
    by (auto simp: post_logs_def prune_logs_eq save_pruned_logs_def emit_def Let_def
          split: sum.splits list.splits prod.splits)
qed

text \<open>
  The cache holds an entry that is older than the retention window; a new entry is
  posted; the old entry is pruned, \<^verbatim>\<open>save_logs\<close> is called with it after the
  response, and the database holds it.
\<close>

theorem save_logs_iff_pruned_nonempty_witness:
  "add_submission (spec_cache 1000 300)
      (LogEntry_obj \<lparr>timestamp = (900::int), tag = ''INFO'', message = ''x''\<rparr>)
      \<lparr>cache_state = [\<lparr>timestamp = (100::int), tag = ''WARN'', message = ''y''\<rparr>],
       db_state = [] :: int LogEntry list, background = [], trace = []\<rparr>
     = (Inr 1, \<lparr>cache_state = [\<lparr>timestamp = (100::int), tag = ''WARN'', message = ''y''\<rparr>,
                               \<lparr>timestamp = (900::int), tag = ''INFO'', message = ''x''\<rparr>],
               db_state = [], background = [],
               trace = [Cache_add_log \<lparr>timestamp = (900::int), tag = ''INFO'', message = ''x''\<rparr>]\<rparr>)
   \<and> prune_cache (spec_cache 1000 300)
        [\<lparr>timestamp = (100::int), tag = ''WARN'', message = ''y''\<rparr>,
         \<lparr>timestamp = (900::int), tag = ''INFO'', message = ''x''\<rparr>]
     = (Inr [\<lparr>timestamp = (100::int), tag = ''WARN'', message = ''y''\<rparr>],
        [\<lparr>timestamp = (900::int), tag = ''INFO'', message = ''x''\<rparr>])
   \<and> post_logs (spec_cache 1000 300) spec_archive
        (LogEntry_obj \<lparr>timestamp = (900::int), tag = ''INFO'', message = ''x''\<rparr>)
        \<lparr>cache_state = [\<lparr>timestamp = (100::int), tag = ''WARN'', message = ''y''\<rparr>],
         db_state = [], background = [], trace = []\<rparr>
     = (Inr (JSONResponse (Message_count ''Successfully added 1 logs'' 1) 201),
        \<lparr>cache_state = [\<lparr>timestamp = (900::int), tag = ''INFO'', message = ''x''\<rparr>],
         db_state = [\<lparr>timestamp = (100::int), tag = ''WARN'', message = ''y''\<rparr>],
         background = [],
         trace = [Cache_add_log \<lparr>timestamp = (900::int), tag = ''INFO'', message = ''x''\<rparr>,
                  Cache_prune_cache,
                  Print_pruned [\<lparr>timestamp = (100::int), tag = ''WARN'', message = ''y''\<rparr>],
                  Add_task (Save_pruned_logs (Some [\<lparr>timestamp = (100::int), tag = ''WARN'', message = ''y''\<rparr>])),
                  Response_sent (JSONResponse (Message_count ''Successfully added 1 logs'' 1) 201),
                  Db_save_logs [\<lparr>timestamp = (100::int), tag = ''WARN'', message = ''y''\<rparr>]]\<rparr>)"
proof -
  let ?w = "\<lparr>cache_state = [\<lparr>timestamp = (100::int), tag = ''WARN'', message = ''y''\<rparr>],
       db_state = [] :: int LogEntry list, background = [], trace = []\<rparr>"
  let ?w1 = "\<lparr>cache_state = [\<lparr>timestamp = (100::int), tag = ''WARN'', message = ''y''\<rparr>,
                               \<lparr>timestamp = (900::int), tag = ''INFO'', message = ''x''\<rparr>],
               db_state = [] :: int LogEntry list, background = [],
               trace = [Cache_add_log \<lparr>timestamp = (900::int), tag = ''INFO'', message = ''x''\<rparr>]\<rparr>"
  have h1: "add_submission (spec_cache 1000 300)
      (LogEntry_obj \<lparr>timestamp = (900::int), tag = ''INFO'', message = ''x''\<rparr>)
      (?w\<lparr>background := []\<rparr>) = (Inr 1, ?w1)"
    by (simp add: add_submission_def spec_cache_def emit_def Let_def)
  have h2: "prune_cache (spec_cache 1000 300) (cache_state ?w1)
     = (Inr [\<lparr>timestamp = (100::int), tag = ''WARN'', message = ''y''\<rparr>],
        [\<lparr>timestamp = (900::int), tag = ''INFO'', message = ''x''\<rparr>])"
    by (simp add: spec_cache_def)
  have h3: "snd (save_logs spec_archive [\<lparr>timestamp = (100::int), tag = ''WARN'', message = ''y''\<rparr>]
              (db_state ?w1))
     = [\<lparr>timestamp = (100::int), tag = ''WARN'', message = ''y''\<rparr>]"
    by (simp add: spec_archive_def)
  from save_logs_iff_pruned_nonempty [of spec_archive None ?w "spec_cache 1000 300"
      "LogEntry_obj \<lparr>timestamp = (900::int), tag = ''INFO'', message = ''x''\<rparr>" 1 ?w1
      "Inr [\<lparr>timestamp = (100::int), tag = ''WARN'', message = ''y''\<rparr>]"
      "[\<lparr>timestamp = (900::int), tag = ''INFO'', message = ''x''\<rparr>]"] h1 h2 h3
  show ?thesis by (simp add: str_nat.simps)
qed

text \<open>
  C4. The claim is that neither the prune step nor the save step runs before the
  response is produced. In the request below the cache holds an old entry and a new
  entry is posted. The trace shows \<^verbatim>\<open>prune_cache\<close> called, and its result printed,
  before the task is added and before the response is sent; only \<^verbatim>\<open>save_logs\<close> runs
  after the response.
\<close>

theorem post_logs_prunes_before_response:
  "post_logs (spec_cache 1000 300) spec_archive
     (LogEntry_obj \<lparr>timestamp = (900::int), tag = ''INFO'', message = ''x''\<rparr>)
     (world0\<lparr>cache_state := [\<lparr>timestamp = (100::int), tag = ''WARN'', message = ''y''\<rparr>]\<rparr>)
   = (Inr (JSONResponse (Message_count ''Successfully added 1 logs'' 1) 201),
      \<lparr>cache_state = [\<lparr>timestamp = (900::int), tag = ''INFO'', message = ''x''\<rparr>],
       db_state = [\<lparr>timestamp = (100::int), tag = ''WARN'', message = ''y''\<rparr>],
       background = [],
       trace = [Cache_add_log \<lparr>timestamp = (900::int), tag = ''INFO'', message = ''x''\<rparr>,
                Cache_prune_cache,
                Print_pruned [\<lparr>timestamp = (100::int), tag = ''WARN'', message = ''y''\<rparr>],
                Add_task (Save_pruned_logs (Some [\<lparr>timestamp = (100::int), tag = ''WARN'', message = ''y''\<rparr>])),
                Response_sent (JSONResponse (Message_count ''Successfully added 1 logs'' 1) 201),
                Db_save_logs [\<lparr>timestamp = (100::int), tag = ''WARN'', message = ''y''\<rparr>]]\<rparr>)"
  by (simp add: post_logs_def add_logs_def add_submission_def prune_logs_def
        save_pruned_logs_def emit_def Let_def spec_cache_def spec_archive_def world0_def
        str_nat.simps)

text \<open>
  The same holds for every request that is answered: when \<^verbatim>\<open>add_logs\<close> returns its
  response, \<^verbatim>\<open>prune_cache\<close> has been called.
\<close>

lemma add_logs_has_pruned:
  assumes "add_logs cache log_list w = (Inr response, w')"
  shows "Cache_prune_cache \<in> set (trace w')"
proof -
  from assms obtain n w1 where s: "add_submission cache log_list w = (Inr n, w1)"
    by (auto simp: add_logs_def split: prod.splits sum.splits)
  obtain p w2 where p: "prune_logs cache w1 = (p, w2)"
    by (cases "prune_logs cache w1")
  have "Cache_prune_cache \<in> set (trace w2)"
    using p by (auto simp: prune_logs_eq split: prod.splits sum.splits)
  with add_logs_after_submission [OF s p] assms show ?thesis
    by auto
qed




end
